theory Spec2Isabelle
  imports Main
begin

section \<open>Commits synchronisation protocol (finalization/p2p.cpp)\<close>

subsection \<open>Data model\<close>

type_synonym uint256 = nat

text \<open>Modelled from the spec: a transaction (primitives/transaction.h is not among the
  sources). \<open>IsFinalizationTransaction\<close> is the outcome of the test of the same name, which
  tells a finalization-commit transaction from any other.\<close>

record CTransaction =
  tx_hash :: uint256
  IsFinalizationTransaction :: bool

text \<open>Modelled from the spec: a block header with its hash (primitives/block.h is not among
  the sources); \<open>GetHash\<close> is the hash the header computes.\<close>

record CBlockHeader =
  hashPrevBlock :: uint256
  GetHash :: uint256

text \<open>Modelled from the spec: a full block, a header and its transactions
  (primitives/block.h is not among the sources).\<close>

record CBlock =
  block_header :: CBlockHeader
  vtx :: "CTransaction list"

text \<open>Modelled from the spec: an entry of the block index (chain.h is not among the
  sources), with the members the code reads. \<open>pprev\<close> is the parent pointer, \<open>None\<close> for the
  null pointer, so that an entry carries its ancestors; \<open>has_data\<close> stands for
  \<open>nStatus & BLOCK_HAVE_DATA\<close> and \<open>valid_tree\<close> for \<open>IsValid(BLOCK_VALID_TREE)\<close>; \<open>index_commits\<close> is the member \<open>commits\<close>, an optional
  list of cached commit transactions.\<close>

datatype CBlockIndex = CBlockIndex
  (phashBlock: uint256)
  (pprev: "CBlockIndex option")
  (nHeight: int)
  (has_data: bool)
  (valid_tree: bool)
  (GetBlockHeader: CBlockHeader)
  (index_commits: "CTransaction list option")

text \<open>The global \<open>mapBlockIndex\<close>.\<close>

type_synonym BlockMap = "uint256 \<rightharpoonup> CBlockIndex"

text \<open>Modelled from the spec: the messages of the protocol (finalization/p2p.h is not among
  the sources): an entry of a response is a header with its commit transactions, a locator
  is a list of start hashes and a stop hash, a response is a status and a list of entries.\<close>

record HeaderAndCommits =
  header :: CBlockHeader
  commits :: "CTransaction list"

record CommitsLocator =
  start :: "uint256 list"
  stop :: uint256

datatype Status = StopOrFinReached | TipReached | LengthExceeded

record CommitsResponse =
  status :: Status
  data :: "HeaderAndCommits list"

text \<open>Modelled from the spec: the value of a freshly constructed \<open>CommitsResponse\<close>
  (finalization/p2p.h is not among the sources). The walk of \<open>ProcessGetCommits\<close> assigns
  \<open>TipReached\<close> only; the spec gives a walk that ends at the stop hash or at a finalized
  checkpoint the status \<open>StopOrFinReached\<close>, which is therefore the initial one.\<close>

definition CommitsResponse_new :: CommitsResponse where
  "CommitsResponse_new = \<lparr>status = StopOrFinReached, data = []\<rparr>"

datatype error = AssertionFailed string

subsection \<open>The active chain\<close>

text \<open>Modelled from the spec: the active chain of the Block Index contract (chain.h is not
  among the sources): a vector of index entries addressed by height. Pointers to index
  entries are compared as the entries themselves.\<close>

type_synonym CChain = "CBlockIndex list"

text \<open>Modelled from the spec: the entry of the active chain at a height (\<open>CChain::operator[]\<close>,
  missing), the null pointer outside the chain.\<close>

definition chain_at :: "CChain \<Rightarrow> int \<Rightarrow> CBlockIndex option" where
  "chain_at chain h = (if h < 0 \<or> h \<ge> int (length chain) then None else Some (chain ! nat h))"

text \<open>Modelled from the spec: the chain-membership test (\<open>CChain::Contains\<close>, missing): the
  chain holds this entry at the entry's height.\<close>

definition Contains :: "CChain \<Rightarrow> CBlockIndex \<Rightarrow> bool" where
  "Contains chain pindex \<longleftrightarrow> chain_at chain (nHeight pindex) = Some pindex"

text \<open>Modelled from the spec: the successor of an entry on the active chain
  (\<open>CChain::Next\<close>, missing), the null pointer for the tip and for an entry off the chain.\<close>

definition Next :: "CChain \<Rightarrow> CBlockIndex \<Rightarrow> CBlockIndex option" where
  "Next chain pindex = (if Contains chain pindex then chain_at chain (nHeight pindex + 1) else None)"

text \<open>Modelled from the spec: the tip of the active chain (\<open>CChain::Tip\<close>, missing).\<close>

definition Tip :: "CChain \<Rightarrow> CBlockIndex option" where
  "Tip chain = (if chain = [] then None else Some (last chain))"

text \<open>The invariant of the active chain: the entry at position \<open>h\<close> has height \<open>h\<close>.\<close>

definition chain_wf :: "CChain \<Rightarrow> bool" where
  "chain_wf chain \<longleftrightarrow> list_all (\<lambda>i. nHeight (chain ! i) = int i) [0..<length chain]"

subsection \<open>Serving side\<close>

text \<open>The loop of \<open>FindMostRecentStart\<close> over \<open>locator.start\<close>, with the local \<open>last\<close>
  as the argument \<open>last'\<close>. \<open>fin\<close> is \<open>state->IsFinalizedCheckpoint\<close> of the finalization state.\<close>

fun FindMostRecentStart_loop ::
  "(int \<Rightarrow> bool) \<Rightarrow> BlockMap \<Rightarrow> CChain \<Rightarrow> CBlockIndex option \<Rightarrow> uint256 list
    \<Rightarrow> error + CBlockIndex option" where
  "FindMostRecentStart_loop fin mapBlockIndex chain last' [] = Inr last'"
| "FindMostRecentStart_loop fin mapBlockIndex chain last' (h # hs) =
     (case mapBlockIndex h of
        None \<Rightarrow> Inr last'
      | Some pindex \<Rightarrow>
          (case last' of
             None \<Rightarrow>
               if \<not> fin (nHeight pindex) then Inr None
               else if Contains chain pindex
                 then FindMostRecentStart_loop fin mapBlockIndex chain (Some pindex) hs
                 else Inl (AssertionFailed ''chain.Contains(pindex)'')
           | Some l \<Rightarrow>
               if nHeight pindex > nHeight l \<and> Contains chain pindex
                 then FindMostRecentStart_loop fin mapBlockIndex chain (Some pindex) hs
                 else Inr last'))"

definition FindMostRecentStart ::
  "(int \<Rightarrow> bool) \<Rightarrow> BlockMap \<Rightarrow> CChain \<Rightarrow> CommitsLocator \<Rightarrow> error + CBlockIndex option" where
  "FindMostRecentStart fin mapBlockIndex chain locator =
     FindMostRecentStart_loop fin mapBlockIndex chain None (start locator)"

definition FindStop :: "BlockMap \<Rightarrow> CommitsLocator \<Rightarrow> CBlockIndex option" where
  "FindStop mapBlockIndex locator =
     (if stop locator = 0 then None else mapBlockIndex (stop locator))"

text \<open>\<open>FindHeaderAndCommits\<close>. \<open>ReadBlockFromDisk\<close> is the external reader, a parameter:
  \<open>None\<close> when it fails. A failed assertion ends the run with the error.\<close>

definition FindHeaderAndCommits ::
  "(CBlockIndex \<Rightarrow> CBlock option) \<Rightarrow> CBlockIndex \<Rightarrow> error + HeaderAndCommits" where
  "FindHeaderAndCommits ReadBlockFromDisk pindex =
     (case index_commits pindex of
        Some cs \<Rightarrow> Inr \<lparr>header = GetBlockHeader pindex, commits = cs\<rparr>
      | None \<Rightarrow>
          if \<not> has_data pindex then Inl (AssertionFailed ''No data on the main chain'')
          else (case ReadBlockFromDisk pindex of
                  None \<Rightarrow> Inl (AssertionFailed ''Cannot load block from the disk'')
                | Some pblock \<Rightarrow>
                    Inr \<lparr>header = GetBlockHeader pindex,
                         commits = filter IsFinalizationTransaction (vtx pblock)\<rparr>))"

text \<open>The do-while loop of \<open>ProcessGetCommits\<close>. It follows \<open>Next\<close> from the current
  entry, which need not terminate on a chain that is not well formed, hence the option.\<close>

partial_function (option) GetCommits_loop ::
  "(int \<Rightarrow> bool) \<Rightarrow> (CBlockIndex \<Rightarrow> CBlock option) \<Rightarrow> CChain \<Rightarrow> CBlockIndex option
    \<Rightarrow> CBlockIndex \<Rightarrow> CommitsResponse \<Rightarrow> (error + CommitsResponse) option" where
  "GetCommits_loop fin ReadBlockFromDisk chain stp pindex r =
     (case Next chain pindex of
        None \<Rightarrow> Some (Inr (r\<lparr>status := TipReached\<rparr>))
      | Some pindex' \<Rightarrow>
          (case FindHeaderAndCommits ReadBlockFromDisk pindex' of
             Inl e \<Rightarrow> Some (Inl e)
           | Inr hc \<Rightarrow>
               if Some pindex' \<noteq> stp \<and> \<not> fin (nHeight pindex')
                 then GetCommits_loop fin ReadBlockFromDisk chain stp pindex' (r\<lparr>data := data r @ [hc]\<rparr>)
                 else Some (Inr (r\<lparr>data := data r @ [hc]\<rparr>))))"

text \<open>\<open>ProcessGetCommits\<close>: the result is the returned flag and the messages pushed to
  the peer.\<close>

definition ProcessGetCommits ::
  "(int \<Rightarrow> bool) \<Rightarrow> (CBlockIndex \<Rightarrow> CBlock option) \<Rightarrow> BlockMap \<Rightarrow> CChain \<Rightarrow> CommitsLocator
    \<Rightarrow> (error + bool \<times> CommitsResponse list) option" where
  "ProcessGetCommits fin ReadBlockFromDisk mapBlockIndex chainActive locator =
     (case FindMostRecentStart fin mapBlockIndex chainActive locator of
        Inl e \<Rightarrow> Some (Inl e)
      | Inr None \<Rightarrow> Some (Inr (False, []))
      | Inr (Some pindex) \<Rightarrow>
          (case GetCommits_loop fin ReadBlockFromDisk chainActive
                  (FindStop mapBlockIndex locator) pindex CommitsResponse_new of
             None \<Rightarrow> None
           | Some (Inl e) \<Rightarrow> Some (Inl e)
           | Some (Inr r) \<Rightarrow> Some (Inr (True, [r]))))"

subsection \<open>Receiving side\<close>

text \<open>Modelled from the spec: the validation state that scores a peer
  (consensus/validation.h is not among the sources).\<close>

datatype mode_state = MODE_VALID | MODE_INVALID | MODE_ERROR

record CValidationState =
  mode :: mode_state
  nDoS :: int
  chRejectCode :: nat
  strRejectReason :: string

text \<open>Modelled from the spec: \<open>CValidationState::DoS\<close> (missing) records the reject code
  and reason, adds the severity to the score unless the state already holds an internal
  error, and returns the flag it was given.\<close>

definition DoS :: "int \<Rightarrow> bool \<Rightarrow> nat \<Rightarrow> string \<Rightarrow> CValidationState \<Rightarrow> bool \<times> CValidationState" where
  "DoS level ret chRejectCodeIn strRejectReasonIn vs =
     (ret, if mode vs = MODE_ERROR
           then vs\<lparr>chRejectCode := chRejectCodeIn, strRejectReason := strRejectReasonIn\<rparr>
           else vs\<lparr>mode := MODE_INVALID, nDoS := nDoS vs + level,
                   chRejectCode := chRejectCodeIn, strRejectReason := strRejectReasonIn\<rparr>)"

text \<open>Modelled from the spec: the reject code \<open>REJECT_INVALID\<close> (consensus/validation.h is
  not among the sources).\<close>

definition REJECT_INVALID :: nat where
  "REJECT_INVALID = 16"

text \<open>What \<open>ProcessNewCommits\<close> reads and writes: the global block index, the caller's
  validation state and the output parameter \<open>failed_block_out\<close> (\<open>None\<close> is the null
  pointer, \<open>Some v\<close> a variable holding \<open>v\<close>).\<close>

record node_state =
  block_index_map :: BlockMap
  validation_state :: CValidationState
  failed_block_out :: "uint256 option"

text \<open>\<open>AcceptBlockHeader\<close> is external and a parameter: from a header, the validation state and the block
  index it gives the flag, the index entry it found or made, and both states updated.\<close>

type_synonym AcceptBlockHeader_fn =
  "CBlockHeader \<Rightarrow> CValidationState \<Rightarrow> BlockMap
    \<Rightarrow> bool \<times> CBlockIndex option \<times> CValidationState \<times> BlockMap"

text \<open>The lambda \<open>err\<close>.\<close>

definition err :: "int \<Rightarrow> string \<Rightarrow> uint256 \<Rightarrow> node_state \<Rightarrow> bool \<times> node_state" where
  "err code str block st =
     (let (ret, vs) = DoS code False REJECT_INVALID str (validation_state st)
      in (ret, st\<lparr>validation_state := vs,
                   failed_block_out :=
                     (case failed_block_out st of None \<Rightarrow> None | Some _ \<Rightarrow> Some block)\<rparr>))"

text \<open>The first loop: the header hash of the first entry that holds a transaction which is
  not a finalization transaction.\<close>

fun check_commits :: "HeaderAndCommits list \<Rightarrow> uint256 option" where
  "check_commits [] = None"
| "check_commits (d # ds) =
     (if list_ex (\<lambda>c. \<not> IsFinalizationTransaction c) (commits d)
      then Some (GetHash (header d))
      else check_commits ds)"

definition ResetCommits :: "CTransaction list \<Rightarrow> CBlockIndex \<Rightarrow> CBlockIndex" where
  "ResetCommits cs pindex =
     CBlockIndex (phashBlock pindex) (pprev pindex) (nHeight pindex) (has_data pindex)
       (valid_tree pindex) (GetBlockHeader pindex) (Some cs)"

text \<open>The second loop. \<open>pindex->ResetCommits\<close> writes to the index entry that
  \<open>mapBlockIndex\<close> owns; here the entry is written back to the map under its hash. The
  map is the only holder of entries in \<open>node_state\<close>: a copy of the entry held elsewhere,
  in an active chain or as the \<open>pprev\<close> of a child, is not part of this state and keeps
  the commits it had, so after the call an entry is to be read through the map.\<close>

fun accept_headers ::
  "AcceptBlockHeader_fn \<Rightarrow> HeaderAndCommits list \<Rightarrow> node_state \<Rightarrow> error + bool \<times> node_state" where
  "accept_headers AcceptBlockHeader [] st = Inr (True, st)"
| "accept_headers AcceptBlockHeader (d # ds) st =
     (case AcceptBlockHeader (header d) (validation_state st) (block_index_map st) of
        (ok, pindex, vs, m) \<Rightarrow>
          let st1 = st\<lparr>validation_state := vs, block_index_map := m\<rparr> in
          if \<not> ok then Inr (False, st1)
          else (case pindex of
                  None \<Rightarrow> Inl (AssertionFailed ''pindex != nullptr'')
                | Some p \<Rightarrow>
                    if \<not> valid_tree p
                    then Inr (err 100 ''bad-block-index'' (GetHash (header d)) st1)
                    else accept_headers AcceptBlockHeader ds
                           (st1\<lparr>block_index_map :=
                                  (block_index_map st1)(phashBlock p \<mapsto> ResetCommits (commits d) p)\<rparr>)))"

text \<open>\<open>ProcessNewCommits\<close>; the final switch on \<open>msg.status\<close> has empty branches.\<close>

definition ProcessNewCommits ::
  "AcceptBlockHeader_fn \<Rightarrow> CommitsResponse \<Rightarrow> node_state \<Rightarrow> error + bool \<times> node_state" where
  "ProcessNewCommits AcceptBlockHeader msg st =
     (case check_commits (data msg) of
        Some block \<Rightarrow> Inr (err 100 ''bad-non-commit'' block st)
      | None \<Rightarrow> accept_headers AcceptBlockHeader (data msg) st)"


subsection \<open>The walk, unrolled\<close>

text \<open>On a well-formed chain the do-while loop visits the entries above the start in
  order; \<open>walk_list\<close> is the loop over that list of successors. \<open>loop_position n pindex\<close>
  is the entry the loop stands at after \<open>n\<close> iterations that went round again, if it gets
  that far.\<close>

fun walk_list ::
  "(int \<Rightarrow> bool) \<Rightarrow> (CBlockIndex \<Rightarrow> CBlock option) \<Rightarrow> CBlockIndex option
    \<Rightarrow> CBlockIndex list \<Rightarrow> CommitsResponse \<Rightarrow> error + CommitsResponse" where
  "walk_list fin rd stp [] r = Inr (r\<lparr>status := TipReached\<rparr>)"
| "walk_list fin rd stp (q # qs) r =
     (case FindHeaderAndCommits rd q of
        Inl e \<Rightarrow> Inl e
      | Inr hc \<Rightarrow>
          if Some q \<noteq> stp \<and> \<not> fin (nHeight q)
            then walk_list fin rd stp qs (r\<lparr>data := data r @ [hc]\<rparr>)
            else Inr (r\<lparr>data := data r @ [hc]\<rparr>))"

fun loop_position ::
  "(int \<Rightarrow> bool) \<Rightarrow> (CBlockIndex \<Rightarrow> CBlock option) \<Rightarrow> CChain \<Rightarrow> CBlockIndex option
    \<Rightarrow> nat \<Rightarrow> CBlockIndex \<Rightarrow> CBlockIndex option" where
  "loop_position fin rd chain stp 0 pindex = Some pindex"
| "loop_position fin rd chain stp (Suc n) pindex =
     (case Next chain pindex of
        None \<Rightarrow> None
      | Some pindex' \<Rightarrow>
          (case FindHeaderAndCommits rd pindex' of
             Inl e \<Rightarrow> None
           | Inr hc \<Rightarrow>
               if Some pindex' \<noteq> stp \<and> \<not> fin (nHeight pindex')
                 then loop_position fin rd chain stp n pindex'
                 else None))"


text \<open>The entry the first hash of the locator resolves to.\<close>

definition first_start :: "BlockMap \<Rightarrow> CommitsLocator \<Rightarrow> CBlockIndex option" where
  "first_start m locator = (case start locator of [] \<Rightarrow> None | h # _ \<Rightarrow> m h)"

subsection \<open>Example data\<close>

definition ex_header :: "uint256 \<Rightarrow> CBlockHeader" where
  "ex_header h = \<lparr>hashPrevBlock = h - 1, GetHash = h\<rparr>"

text \<open>A chain of entries: the entry at height \<open>n\<close> has hash \<open>100 + n\<close> and cached, empty
  commits.\<close>

fun ex_block :: "nat \<Rightarrow> CBlockIndex" where
  "ex_block 0 = CBlockIndex 100 None 0 True True \<lparr>hashPrevBlock = 0, GetHash = 100\<rparr> (Some [])"
| "ex_block (Suc n) =
     CBlockIndex (101 + n) (Some (ex_block n)) (int n + 1) True True (ex_header (101 + n)) (Some [])"

text \<open>A block at height 1 that competes with block 101.\<close>

definition ex_side :: CBlockIndex where
  "ex_side = CBlockIndex 201 (Some (ex_block 0)) 1 True True \<lparr>hashPrevBlock = 100, GetHash = 201\<rparr> (Some [])"

text \<open>A block at height 2 with no cached commits and no block data.\<close>

definition ex_nodata :: CBlockIndex where
  "ex_nodata = CBlockIndex 102 (Some (ex_block 1)) 2 False True (ex_header 102) None"

definition ex_chain :: "nat \<Rightarrow> CChain" where
  "ex_chain n = map ex_block [0..<n]"

definition ex_chain3 :: CChain where
  "ex_chain3 = [ex_block 0, ex_block 1, ex_block 2]"

definition ex_chain_nodata :: CChain where
  "ex_chain_nodata = [ex_block 0, ex_block 1, ex_nodata]"

definition ex_map :: BlockMap where
  "ex_map = map_of [(100, ex_block 0), (101, ex_block 1), (102, ex_block 2), (201, ex_side)]"

definition ex_vote :: CTransaction where
  "ex_vote = \<lparr>tx_hash = 1, IsFinalizationTransaction = True\<rparr>"

definition ex_payment :: CTransaction where
  "ex_payment = \<lparr>tx_hash = 2, IsFinalizationTransaction = False\<rparr>"

definition ex_msg_bad :: CommitsResponse where
  "ex_msg_bad = \<lparr>status = TipReached,
                  data = [\<lparr>header = ex_header 101, commits = [ex_vote]\<rparr>,
                          \<lparr>header = ex_header 102, commits = [ex_vote, ex_payment]\<rparr>]\<rparr>"

definition ex_msg_ok :: CommitsResponse where
  "ex_msg_ok = \<lparr>status = TipReached, data = [\<lparr>header = ex_header 101, commits = [ex_vote]\<rparr>]\<rparr>"

definition ex_state :: node_state where
  "ex_state = \<lparr>block_index_map = ex_map,
               validation_state = \<lparr>mode = MODE_VALID, nDoS = 0, chRejectCode = 0, strRejectReason = []\<rparr>,
               failed_block_out = Some 0\<rparr>"

text \<open>A header acceptance that takes every header, and one that takes none.\<close>

definition ex_accept :: AcceptBlockHeader_fn where
  "ex_accept hdr vs m =
     (let pindex = CBlockIndex (GetHash hdr) (m (hashPrevBlock hdr)) 1 False True hdr None
      in (True, Some pindex, vs, m(GetHash hdr \<mapsto> pindex)))"

definition ex_reject :: AcceptBlockHeader_fn where
  "ex_reject hdr vs m = (False, None, vs, m)"

section \<open>Finalization state repository and processor\<close>

text \<open>The implementation of \<open>finalization::StateRepository\<close> and of
  \<open>finalization::StateProcessor\<close> is not among the sources; only their test
  (test/finalization/state_processor_tests.cpp) is. They are modelled here from the
  specification, and the model is run against the test further down.\<close>

subsection \<open>Data model\<close>

text \<open>Modelled from the spec: the initialisation status of a finalization state,
  \<open>Absent\<close>, \<open>FromCommits\<close>, \<open>Completed\<close> in this order (the enumeration of
  esperanza/finalizationstate.h is missing; the test names \<open>FROM_COMMITS\<close> and
  \<open>COMPLETED\<close>). \<open>ABSENT\<close> is the status of a fresh state and of a block without a
  stored state.\<close>

datatype InitStatus = ABSENT | FROM_COMMITS | COMPLETED

text \<open>Modelled from the spec: the \<open>FinalizationState\<close> of one block (the class
  esperanza::FinalizationState is missing), with the fields of section 3 of the
  specification; the vote and deposit bookkeeping is left out.\<close>

record FinalizationState =
  height :: int
  init_status :: InitStatus
  epoch :: int
  dynasty :: int
  justified_checkpoint :: "int option"
  finalized_checkpoint :: "int option"

text \<open>Modelled from the spec: the finalization rule engine the processor calls (missing
  from the sources), as the two derivations of its contract: a state from the parent's state
  and the commit transactions, and a state from the parent's state and the full block.\<close>

record rule_engine =
  DeriveFromCommits :: "FinalizationState \<Rightarrow> CTransaction list \<Rightarrow> FinalizationState"
  DeriveFromBlock :: "FinalizationState \<Rightarrow> CBlock \<Rightarrow> FinalizationState"

text \<open>Modelled from the spec: the \<open>StateRepository\<close> (state_repository.cpp is missing):
  the configured epoch length, the state of the genesis block, kept apart as a permanent
  anchor, and the mapping from block identity to state. A block's identity is its index
  entry, as pointers to index entries are compared.\<close>

record StateRepository =
  epoch_length :: int
  genesis_state :: FinalizationState
  states :: "CBlockIndex \<rightharpoonup> FinalizationState"

subsection \<open>StateRepository\<close>

text \<open>Modelled from the spec: \<open>StateRepository::Reset\<close> (missing) sets the configuration, of
  which the epoch length is kept, seeds the genesis state as \<open>Completed\<close> and discards all
  stored states.\<close>

definition Reset :: "int \<Rightarrow> StateRepository" where
  "Reset E =
     \<lparr>epoch_length = E,
      genesis_state = \<lparr>height = 0, init_status = COMPLETED, epoch = 0, dynasty = 0,
                        justified_checkpoint = None, finalized_checkpoint = None\<rparr>,
      states = Map.empty\<rparr>"

text \<open>Modelled from the spec: \<open>StateRepository::Find\<close> (missing) returns the stored state or
  absent. The test resets the repository before any block exists and then finds a state
  for the block of height 0, so the genesis state answers for that height.\<close>

definition Find :: "StateRepository \<Rightarrow> CBlockIndex \<Rightarrow> FinalizationState option" where
  "Find repo block = (if nHeight block = 0 then Some (genesis_state repo) else states repo block)"

text \<open>Modelled from the spec: \<open>StateRepository::Confirm\<close> (missing) installs or overwrites
  the stored state of a block.\<close>

definition Confirm :: "StateRepository \<Rightarrow> CBlockIndex \<Rightarrow> FinalizationState \<Rightarrow> StateRepository" where
  "Confirm repo block state = repo\<lparr>states := (states repo)(block \<mapsto> state)\<rparr>"

text \<open>Modelled from the spec: \<open>StateRepository::TrimUntilHeight\<close> (missing) removes every
  stored entry whose height is below the new boundary, except the finalized checkpoint
  block and genesis. The boundary is the first height after the epoch that the finalized
  checkpoint closes (sections 3 and 8 of the specification; a checkpoint is the last block
  of an epoch), as in the trimming test, where heights 1 to 3 go once the checkpoint at
  height 4 is finalized; the checkpoint block is the entry of the active chain just below
  the boundary.\<close>

definition TrimUntilHeight :: "CChain \<Rightarrow> StateRepository \<Rightarrow> int \<Rightarrow> StateRepository" where
  "TrimUntilHeight chain repo new_boundary_height =
     repo\<lparr>states := (\<lambda>block.
        if nHeight block < new_boundary_height \<and> nHeight block \<noteq> 0
           \<and> chain_at chain (new_boundary_height - 1) \<noteq> Some block
        then None else states repo block)\<rparr>"

text \<open>Modelled from the spec: the status observed for a block, \<open>Absent\<close> when the repository
  holds no state for it (the accessor \<open>GetInitStatus\<close> of the missing state class, lifted to
  a lookup).\<close>

definition GetInitStatus :: "StateRepository \<Rightarrow> CBlockIndex \<Rightarrow> InitStatus" where
  "GetInitStatus repo block = (case Find repo block of None \<Rightarrow> ABSENT | Some s \<Rightarrow> init_status s)"

text \<open>Modelled from the spec: the stored state of the parent of a block (part of the missing
  processor), absent when the block has no parent.\<close>

definition parent_state :: "StateRepository \<Rightarrow> CBlockIndex \<Rightarrow> FinalizationState option" where
  "parent_state repo block = (case pprev block of None \<Rightarrow> None | Some p \<Rightarrow> Find repo p)"

subsection \<open>StateProcessor\<close>

text \<open>Modelled from the spec: \<open>StateProcessor::ProcessNewCommits\<close> (state_processor.cpp is
  missing). The parent must have some stored state, else the call returns false and changes
  nothing; the state is derived from the commit transactions and stored as \<open>FromCommits\<close>;
  a block already at or beyond that status is left as it is.\<close>

definition StateProcessor_ProcessNewCommits ::
  "rule_engine \<Rightarrow> StateRepository \<Rightarrow> CBlockIndex \<Rightarrow> CTransaction list \<Rightarrow> bool \<times> StateRepository" where
  "StateProcessor_ProcessNewCommits eng repo block txs =
     (case GetInitStatus repo block of
        ABSENT \<Rightarrow>
          (case parent_state repo block of
             None \<Rightarrow> (False, repo)
           | Some ps \<Rightarrow>
               (True, Confirm repo block
                  ((DeriveFromCommits eng ps txs)\<lparr>height := nHeight block, init_status := FROM_COMMITS\<rparr>)))
      | FROM_COMMITS \<Rightarrow> (True, repo)
      | COMPLETED \<Rightarrow> (True, repo))"

text \<open>Modelled from the spec: the derivation that \<open>ProcessNewTipCandidate\<close> and
  \<open>ProcessNewTip\<close> share (state_processor.cpp is missing). A block that is \<open>Completed\<close> is
  left as it is; a block without a state needs a parent that is \<open>Completed\<close>, else the
  call returns false; the state is derived from the full block and stored as \<open>Completed\<close>.
  For a block that already holds a state from commits the test \<open>states_workflow\<close> decides
  (lines 208 to 212, the snapshot-sync case, section 9 of the specification): it is
  confirmed from the full block although its parent is at \<open>FromCommits\<close> only.\<close>

definition ProcessNewTipWorker ::
  "rule_engine \<Rightarrow> StateRepository \<Rightarrow> CBlockIndex \<Rightarrow> CBlock \<Rightarrow> bool \<times> StateRepository" where
  "ProcessNewTipWorker eng repo block blk =
     (case GetInitStatus repo block of
        COMPLETED \<Rightarrow> (True, repo)
      | FROM_COMMITS \<Rightarrow>
          (case parent_state repo block of
             None \<Rightarrow> (False, repo)
           | Some ps \<Rightarrow>
               (True, Confirm repo block
                  ((DeriveFromBlock eng ps blk)\<lparr>height := nHeight block, init_status := COMPLETED\<rparr>)))
      | ABSENT \<Rightarrow>
          (case parent_state repo block of
             None \<Rightarrow> (False, repo)
           | Some ps \<Rightarrow>
               if init_status ps = COMPLETED
               then (True, Confirm repo block
                  ((DeriveFromBlock eng ps blk)\<lparr>height := nHeight block, init_status := COMPLETED\<rparr>))
               else (False, repo)))"

text \<open>Modelled from the spec: \<open>StateProcessor::ProcessNewTipCandidate\<close> (missing) derives
  and stores the state and neither looks at the active chain nor trims.\<close>

definition ProcessNewTipCandidate ::
  "rule_engine \<Rightarrow> StateRepository \<Rightarrow> CBlockIndex \<Rightarrow> CBlock \<Rightarrow> bool \<times> StateRepository" where
  "ProcessNewTipCandidate eng repo block blk = ProcessNewTipWorker eng repo block blk"

text \<open>Modelled from the spec: whether processing a block has determined a new finalized
  checkpoint (part of the missing processor): its state names a finalized checkpoint that
  its parent's state does not. The result is the height of the checkpoint.\<close>

definition FinalizationHappened :: "StateRepository \<Rightarrow> CBlockIndex \<Rightarrow> int option" where
  "FinalizationHappened repo block =
     (case Find repo block of
        None \<Rightarrow> None
      | Some s \<Rightarrow>
          (case parent_state repo block of
             None \<Rightarrow> None
           | Some ps \<Rightarrow>
               (case finalized_checkpoint s of
                  None \<Rightarrow> None
                | Some c \<Rightarrow> if finalized_checkpoint ps = Some c then None else Some c)))"

text \<open>Modelled from the spec: \<open>StateProcessor::ProcessNewTip\<close> (missing) does what
  \<open>ProcessNewTipCandidate\<close> does and, the block being part of the active chain, then
  recomputes whether a new epoch has been finalized and, if so, trims the repository up to
  the boundary after the finalized checkpoint.\<close>

definition ProcessNewTip ::
  "CChain \<Rightarrow> rule_engine \<Rightarrow> StateRepository \<Rightarrow> CBlockIndex \<Rightarrow> CBlock \<Rightarrow> bool \<times> StateRepository" where
  "ProcessNewTip chain eng repo block blk =
     (case ProcessNewTipWorker eng repo block blk of
        (False, repo') \<Rightarrow> (False, repo')
      | (True, repo') \<Rightarrow>
          (True, case FinalizationHappened repo' block of
                   None \<Rightarrow> repo'
                 | Some c \<Rightarrow> TrimUntilHeight chain repo' (c + 1)))"

subsection \<open>Sequences of calls\<close>

datatype call =
    NewCommits CBlockIndex "CTransaction list"
  | NewTipCandidate CBlockIndex CBlock
  | NewTip CChain CBlockIndex CBlock

fun apply_call :: "rule_engine \<Rightarrow> StateRepository \<Rightarrow> call \<Rightarrow> bool \<times> StateRepository" where
  "apply_call eng repo (NewCommits block txs) = StateProcessor_ProcessNewCommits eng repo block txs"
| "apply_call eng repo (NewTipCandidate block blk) = ProcessNewTipCandidate eng repo block blk"
| "apply_call eng repo (NewTip chain block blk) = ProcessNewTip chain eng repo block blk"

fun is_NewTip :: "call \<Rightarrow> bool" where
  "is_NewTip (NewTip chain block blk) = True"
| "is_NewTip c = False"

fun run_calls :: "rule_engine \<Rightarrow> StateRepository \<Rightarrow> call list \<Rightarrow> StateRepository" where
  "run_calls eng repo [] = repo"
| "run_calls eng repo (c # cs) = run_calls eng (snd (apply_call eng repo c)) cs"

text \<open>The order \<open>Absent\<close>, \<open>FromCommits\<close>, \<open>Completed\<close>.\<close>

fun status_rank :: "InitStatus \<Rightarrow> nat" where
  "status_rank ABSENT = 0"
| "status_rank FROM_COMMITS = 1"
| "status_rank COMPLETED = 2"

subsection \<open>The test fixture\<close>

text \<open>An example rule engine for blocks without votes. The first block of an epoch
  \<open>e \<ge> 1\<close> justifies the checkpoint of epoch \<open>e - 1\<close> and finalizes the checkpoint of
  epoch \<open>max 0 (e - 2)\<close>: with epoch length 5 the finalized checkpoint becomes 4 at height
  5, stays at height 10 and becomes 9 at height 15, which is what the trimming test sees
  of the real engine.\<close>

definition ex_derive :: "int \<Rightarrow> FinalizationState \<Rightarrow> FinalizationState" where
  "ex_derive E ps =
     (let h = height ps + 1; e = h div E in
      if h mod E = 0
      then ps\<lparr>height := h, epoch := e, dynasty := max 0 (e - 2),
              justified_checkpoint := Some (h - 1),
              finalized_checkpoint := Some ((max 0 (e - 2) + 1) * E - 1)\<rparr>
      else ps\<lparr>height := h, epoch := e\<rparr>)"

definition ex_engine :: "int \<Rightarrow> rule_engine" where
  "ex_engine E = \<lparr>DeriveFromCommits = (\<lambda>ps txs. ex_derive E ps),
                  DeriveFromBlock = (\<lambda>ps blk. ex_derive E ps)\<rparr>"

text \<open>The empty block \<open>CBlock()\<close> of the fixture.\<close>

definition ex_CBlock :: CBlock where
  "ex_CBlock = \<lparr>block_header = \<lparr>hashPrevBlock = 0, GetHash = 0\<rparr>, vtx = []\<rparr>"

text \<open>\<open>AddBlocks\<close> of the fixture, from height \<open>h\<close> on: each block is made the tip of the
  chain and processed by \<open>ProcessNewTip\<close>, which must succeed.\<close>

fun AddBlocks :: "rule_engine \<Rightarrow> nat \<Rightarrow> nat \<Rightarrow> StateRepository \<Rightarrow> bool \<times> StateRepository" where
  "AddBlocks eng h 0 repo = (True, repo)"
| "AddBlocks eng h (Suc k) repo =
     (case ProcessNewTip (ex_chain (Suc h)) eng repo (ex_block h) ex_CBlock of
        (ok, repo') \<Rightarrow> if ok then AddBlocks eng (Suc h) k repo' else (False, repo'))"

text \<open>The repository after the first five and the first six blocks, and after the commits
  of block 6 and of blocks 6 and 7 have been processed on top.\<close>

definition ex_repo5 :: StateRepository where
  "ex_repo5 = snd (AddBlocks (ex_engine 5) 0 5 (Reset 5))"

definition ex_repo6 :: StateRepository where
  "ex_repo6 = snd (AddBlocks (ex_engine 5) 0 6 (Reset 5))"

definition ex_repo_b1 :: StateRepository where
  "ex_repo_b1 = snd (StateProcessor_ProcessNewCommits (ex_engine 5) ex_repo6 (ex_block 6) [])"

definition ex_repo_b2 :: StateRepository where
  "ex_repo_b2 = snd (StateProcessor_ProcessNewCommits (ex_engine 5) ex_repo_b1 (ex_block 7) [])"


section \<open>Properties of the commits protocol\<close>

subsection \<open>The example chain\<close>

declare ex_block.simps [simp del]

lemma nHeight_ex_block [simp]: "nHeight (ex_block i) = int i"
  by (cases i) (simp_all add: ex_block.simps)

lemma phashBlock_ex_block [simp]: "phashBlock (ex_block i) = 100 + i"
  by (cases i) (simp_all add: ex_block.simps)

lemma pprev_ex_block [simp]:
  "pprev (ex_block i) = (if i = 0 then None else Some (ex_block (i - 1)))"
  by (cases i) (simp_all add: ex_block.simps)

lemma ex_block_cached [simp]: "index_commits (ex_block i) = Some []"
  by (cases i) (simp_all add: ex_block.simps)

lemma ex_block_flags [simp]: "has_data (ex_block i)" "valid_tree (ex_block i)"
  by (cases i; simp add: ex_block.simps)+

lemma GetBlockHeader_ex_block [simp]:
  "GetBlockHeader (ex_block i) =
     (if i = 0 then \<lparr>hashPrevBlock = 0, GetHash = 100\<rparr> else ex_header (100 + i))"
  by (cases i) (simp_all add: ex_block.simps)

lemma ex_block_eq [simp]: "ex_block i = ex_block j \<longleftrightarrow> i = j"
proof
  assume "ex_block i = ex_block j"
  then have "nHeight (ex_block i) = nHeight (ex_block j)" by (rule arg_cong)
  then show "i = j" by simp
qed simp

lemma ex_block_neq_others [simp]: "ex_block i \<noteq> ex_side" "ex_block i \<noteq> ex_nodata"
  by (cases i; simp add: ex_block.simps ex_side_def ex_nodata_def)+

lemma ex_side_sel [simp]: "nHeight ex_side = 1" "phashBlock ex_side = 201"
  by (simp_all add: ex_side_def)

lemma ex_nodata_sel [simp]:
  "nHeight ex_nodata = 2" "index_commits ex_nodata = None" "\<not> has_data ex_nodata"
  by (simp_all add: ex_nodata_def)

lemma length_ex_chain [simp]: "length (ex_chain n) = n"
  by (simp add: ex_chain_def)

lemma chain_wf_ex_chain: "chain_wf (ex_chain n)"
  by (simp add: chain_wf_def list_all_iff ex_chain_def)

lemma chain_wf_ex_chain3: "chain_wf ex_chain3"
  by (simp add: chain_wf_def ex_chain3_def upt_rec)

subsection \<open>The chain and the walk\<close>

lemma chain_wf_nth: "chain_wf chain \<Longrightarrow> i < length chain \<Longrightarrow> nHeight (chain ! i) = int i"
  by (simp add: chain_wf_def list_all_iff)

lemma Contains_nth: "chain_wf chain \<Longrightarrow> i < length chain \<Longrightarrow> Contains chain (chain ! i)"
  by (simp add: Contains_def chain_at_def chain_wf_nth)

lemma Contains_wfD:
  assumes "Contains chain p"
  shows "nat (nHeight p) < length chain \<and> chain ! nat (nHeight p) = p \<and> 0 \<le> nHeight p"
  using assms by (auto simp: Contains_def chain_at_def split: if_splits)

lemma Next_nth:
  "chain_wf chain \<Longrightarrow> i < length chain \<Longrightarrow>
   Next chain (chain ! i) = (if Suc i < length chain then Some (chain ! Suc i) else None)"
  by (auto simp: Next_def Contains_nth chain_at_def chain_wf_nth nat_add_distrib)

lemma GetCommits_loop_nth:
  "chain_wf chain \<Longrightarrow> i < length chain \<Longrightarrow>
   GetCommits_loop fin rd chain stp (chain ! i) r
     = Some (walk_list fin rd stp (drop (Suc i) chain) r)"
proof (induction "length chain - i" arbitrary: i r)
  case 0
  then show ?case by simp
next
  case (Suc n)
  show ?case
  proof (cases "Suc i < length chain")
    case False
    with Suc.prems show ?thesis
      by (subst GetCommits_loop.simps) (simp add: Next_nth)
  next
    case True
    then have d: "drop (Suc i) chain = chain ! Suc i # drop (Suc (Suc i)) chain"
      by (simp add: Cons_nth_drop_Suc)
    have n: "n = length chain - Suc i" using Suc.hyps(2) by simp
    note IH = Suc.hyps(1)[OF n Suc.prems(1) True]
    show ?thesis
      using Suc.prems True
      by (subst GetCommits_loop.simps) (simp add: Next_nth d IH split: sum.splits)
  qed
qed

lemma GetCommits_loop_wf:
  assumes "chain_wf chain" and "Contains chain p"
  shows "GetCommits_loop fin rd chain stp p r
           = Some (walk_list fin rd stp (drop (Suc (nat (nHeight p))) chain) r)"
  using GetCommits_loop_nth[OF assms(1), of "nat (nHeight p)"] Contains_wfD[OF assms(2)]
  by simp

lemma FindMostRecentStart_loop_Contains:
  "FindMostRecentStart_loop fin m chain l hs = Inr (Some p) \<Longrightarrow>
   (\<forall>q. l = Some q \<longrightarrow> Contains chain q) \<Longrightarrow> Contains chain p"
  by (induction hs arbitrary: l) (auto split: option.splits if_splits)

lemma FindMostRecentStart_Contains:
  "FindMostRecentStart fin m chain locator = Inr (Some p) \<Longrightarrow> Contains chain p"
  unfolding FindMostRecentStart_def by (erule FindMostRecentStart_loop_Contains) simp

lemma walk_list_status:
  "walk_list fin rd stp qs r = Inr r' \<Longrightarrow> status r' = TipReached \<or> status r' = status r"
proof (induction qs arbitrary: r)
  case Nil
  then show ?case by auto
next
  case (Cons q qs)
  show ?case
  proof (cases "FindHeaderAndCommits rd q")
    case (Inl e)
    with Cons.prems show ?thesis by simp
  next
    case (Inr hc)
    show ?thesis
    proof (cases "Some q \<noteq> stp \<and> \<not> fin (nHeight q)")
      case True
      with Inr Cons.prems have "walk_list fin rd stp qs (r\<lparr>data := data r @ [hc]\<rparr>) = Inr r'"
        by simp
      from Cons.IH[OF this] show ?thesis by simp
    next
      case False
      with Inr Cons.prems show ?thesis by auto
    qed
  qed
qed

lemma walk_list_length:
  "walk_list fin rd stp qs r = Inr r' \<Longrightarrow> length (data r') \<le> length (data r) + length qs"
  by (induction qs arbitrary: r) (fastforce split: sum.splits if_splits)+

lemma FindHeaderAndCommits_header:
  "FindHeaderAndCommits rd q = Inr hc \<Longrightarrow> header hc = GetBlockHeader q"
  by (auto simp: FindHeaderAndCommits_def split: option.splits if_splits)

lemma walk_list_tip:
  "walk_list fin rd stp qs r = Inr r' \<Longrightarrow> status r' = TipReached \<Longrightarrow> status r \<noteq> TipReached \<Longrightarrow>
   map header (data r') = map header (data r) @ map GetBlockHeader qs"
  by (induction qs arbitrary: r) (auto split: sum.splits if_splits dest: FindHeaderAndCommits_header)

lemma loop_position_abort:
  assumes "loop_position fin rd chain stp n p = Some q"
    and "Next chain q = Some d" and "index_commits d = None"
    and "\<not> has_data d \<or> rd d = None"
  shows "GetCommits_loop fin rd chain stp p r
           = Some (Inl (AssertionFailed (if \<not> has_data d then ''No data on the main chain''
                                          else ''Cannot load block from the disk'')))"
  using assms(1)
proof (induction n arbitrary: p r)
  case 0
  then have "p = q" by simp
  with assms(2-4) show ?case
    by (subst GetCommits_loop.simps) (auto simp: FindHeaderAndCommits_def)
next
  case (Suc n)
  then show ?case
    by (subst GetCommits_loop.simps) (auto split: option.splits sum.splits if_splits)
qed


subsection \<open>Resolving the start\<close>

lemma FindMostRecentStart_first:
  assumes "start locator = h # hs" and "m h = Some p"
  shows "FindMostRecentStart fin m chain locator =
     (if \<not> fin (nHeight p) then Inr None
      else if Contains chain p then FindMostRecentStart_loop fin m chain (Some p) hs
      else Inl (AssertionFailed ''chain.Contains(pindex)''))"
  using assms by (simp add: FindMostRecentStart_def)

lemma FindMostRecentStart_loop_Some_no_abort:
  "FindMostRecentStart_loop fin m chain (Some l) hs \<noteq> Inl e"
  by (induction hs arbitrary: l) (auto split: option.splits)

lemma ProcessGetCommits_wf:
  assumes "chain_wf chain"
  shows "ProcessGetCommits fin rd m chain locator =
     (case FindMostRecentStart fin m chain locator of
        Inl e \<Rightarrow> Some (Inl e)
      | Inr None \<Rightarrow> Some (Inr (False, []))
      | Inr (Some p) \<Rightarrow>
          (case walk_list fin rd (FindStop m locator) (drop (Suc (nat (nHeight p))) chain)
                  CommitsResponse_new of
             Inl e \<Rightarrow> Some (Inl e)
           | Inr r \<Rightarrow> Some (Inr (True, [r]))))"
proof (cases "FindMostRecentStart fin m chain locator")
  case (Inl e)
  then show ?thesis by (simp add: ProcessGetCommits_def)
next
  case (Inr res)
  show ?thesis
  proof (cases res)
    case None
    with Inr show ?thesis by (simp add: ProcessGetCommits_def)
  next
    case (Some p)
    with Inr have "Contains chain p" by (simp add: FindMostRecentStart_Contains)
    from GetCommits_loop_wf[OF assms this] Inr Some show ?thesis
      by (simp add: ProcessGetCommits_def split: sum.splits)
  qed
qed

lemma ProcessGetCommits_terminates:
  "chain_wf chain \<Longrightarrow> ProcessGetCommits fin rd m chain locator \<noteq> None"
  by (simp add: ProcessGetCommits_wf split: sum.splits option.splits)

lemma ProcessGetCommits_served:
  assumes "chain_wf chain"
    and "ProcessGetCommits fin rd m chain locator = Some (Inr (ok, msgs))" and "r \<in> set msgs"
  obtains p where "FindMostRecentStart fin m chain locator = Inr (Some p)"
    and "Contains chain p"
    and "walk_list fin rd (FindStop m locator) (drop (Suc (nat (nHeight p))) chain)
           CommitsResponse_new = Inr r"
  using assms(2,3) unfolding ProcessGetCommits_wf[OF assms(1)]
  by (auto split: sum.splits option.splits dest: FindMostRecentStart_Contains)

text \<open>Claim C5. When the first hash of \<open>locator.start\<close> resolves to a local block that
  is not a finalized checkpoint, \<open>ProcessGetCommits\<close> returns false and pushes no message
  to the peer.\<close>

theorem ProcessGetCommits_first_not_finalized:
  assumes "start locator = h # hs" and "mapBlockIndex h = Some pindex"
    and "\<not> fin (nHeight pindex)"
  shows "ProcessGetCommits fin ReadBlockFromDisk mapBlockIndex chainActive locator
           = Some (Inr (False, []))"
  using assms by (simp add: ProcessGetCommits_def FindMostRecentStart_first)

theorem ProcessGetCommits_first_not_finalized_witness:
  "start \<lparr>start = [102, 100], stop = 0\<rparr> = 102 # [100] \<and> ex_map 102 = Some (ex_block 2)
   \<and> \<not> (\<lambda>h. h = 1) (nHeight (ex_block 2))
   \<and> ProcessGetCommits (\<lambda>h. h = 1) (\<lambda>_. None) ex_map ex_chain3 \<lparr>start = [102, 100], stop = 0\<rparr>
       = Some (Inr (False, []))"
  using ProcessGetCommits_first_not_finalized
    [of "\<lparr>start = [102, 100], stop = 0\<rparr>" 102 "[100]" ex_map "ex_block 2" "\<lambda>h. h = 1"
        "\<lambda>_. None" ex_chain3]
  by (simp add: ex_map_def)

text \<open>Claim C10. The assertion \<open>chain.Contains(pindex)\<close> of \<open>FindMostRecentStart\<close> fails
  exactly when the first hash resolves to a block whose height is that of a finalized
  checkpoint and which is not on the active chain; for such a locator \<open>ProcessGetCommits\<close>
  aborts on the assertion instead of returning false.\<close>

theorem FindMostRecentStart_assert_side_branch:
  "(FindMostRecentStart fin m chain locator = Inl (AssertionFailed ''chain.Contains(pindex)'')
      \<longleftrightarrow> (\<exists>p. first_start m locator = Some p \<and> fin (nHeight p) \<and> \<not> Contains chain p))
   \<and> ((\<exists>p. first_start m locator = Some p \<and> fin (nHeight p) \<and> \<not> Contains chain p)
      \<longrightarrow> ProcessGetCommits fin rd m chain locator
             = Some (Inl (AssertionFailed ''chain.Contains(pindex)'')))"
proof -
  let ?A = "AssertionFailed ''chain.Contains(pindex)''"
  let ?side = "\<exists>p. first_start m locator = Some p \<and> fin (nHeight p) \<and> \<not> Contains chain p"
  have iff: "FindMostRecentStart fin m chain locator = Inl ?A \<longleftrightarrow> ?side"
  proof (cases "start locator")
    case Nil
    then show ?thesis by (simp add: FindMostRecentStart_def first_start_def)
  next
    case (Cons h hs)
    show ?thesis
    proof (cases "m h")
      case None
      with Cons show ?thesis by (simp add: FindMostRecentStart_def first_start_def)
    next
      case (Some p)
      with Cons show ?thesis
        by (simp add: FindMostRecentStart_first first_start_def
            FindMostRecentStart_loop_Some_no_abort)
    qed
  qed
  moreover have "?side \<longrightarrow> ProcessGetCommits fin rd m chain locator = Some (Inl ?A)"
  proof
    assume ?side
    with iff have "FindMostRecentStart fin m chain locator = Inl ?A" by blast
    then show "ProcessGetCommits fin rd m chain locator = Some (Inl ?A)"
      by (simp add: ProcessGetCommits_def)
  qed
  ultimately show ?thesis by blast
qed

theorem FindMostRecentStart_assert_side_branch_witness:
  "first_start ex_map \<lparr>start = [201], stop = 0\<rparr> = Some ex_side
   \<and> (\<lambda>h. h = 1) (nHeight ex_side) \<and> \<not> Contains ex_chain3 ex_side
   \<and> ProcessGetCommits (\<lambda>h. h = 1) (\<lambda>_. None) ex_map ex_chain3 \<lparr>start = [201], stop = 0\<rparr>
       = Some (Inl (AssertionFailed ''chain.Contains(pindex)''))"
proof -
  have side: "first_start ex_map \<lparr>start = [201], stop = 0\<rparr> = Some ex_side
      \<and> (\<lambda>h. h = 1) (nHeight ex_side) \<and> \<not> Contains ex_chain3 ex_side"
    by (simp add: first_start_def ex_map_def ex_chain3_def Contains_def chain_at_def)
  with FindMostRecentStart_assert_side_branch
    [of "\<lambda>h. h = 1" ex_map ex_chain3 "\<lparr>start = [201], stop = 0\<rparr>" "\<lambda>_. None"]
  show ?thesis by blast
qed


subsection \<open>Receiving a batch\<close>

lemma check_commits_Some_iff:
  "(\<exists>b. check_commits ds = Some b) \<longleftrightarrow>
   (\<exists>d\<in>set ds. \<exists>c\<in>set (commits d). \<not> IsFinalizationTransaction c)"
  by (induction ds) (auto simp: list_ex_iff)

lemma err_result:
  "fst (err code str block st) = False"
  "block_index_map (snd (err code str block st)) = block_index_map st"
  "failed_block_out (snd (err code str block st)) = map_option (\<lambda>_. block) (failed_block_out st)"
  by (simp_all add: err_def DoS_def split: option.splits)

text \<open>Claim C3. A message in which some transaction attached to some header is not a
  finalization transaction is rejected by \<open>ProcessNewCommits\<close> before any header is
  processed: it returns false and the block index is as it was, whatever
  \<open>AcceptBlockHeader\<close> would have done and wherever in \<open>data\<close> the transaction is.\<close>

theorem ProcessNewCommits_rejects_batch:
  assumes "\<exists>d\<in>set (data msg). \<exists>c\<in>set (commits d). \<not> IsFinalizationTransaction c"
  shows "\<exists>st'. ProcessNewCommits AcceptBlockHeader msg st = Inr (False, st')
           \<and> block_index_map st' = block_index_map st"
proof -
  from assms obtain b where b: "check_commits (data msg) = Some b"
    using check_commits_Some_iff by blast
  let ?e = "err 100 ''bad-non-commit'' b st"
  have "ProcessNewCommits AcceptBlockHeader msg st = Inr (fst ?e, snd ?e)"
    using b by (simp add: ProcessNewCommits_def)
  then show ?thesis by (simp add: err_result)
qed

theorem ProcessNewCommits_rejects_batch_witness:
  "(\<exists>d\<in>set (data ex_msg_bad). \<exists>c\<in>set (commits d). \<not> IsFinalizationTransaction c)
   \<and> list_all IsFinalizationTransaction (commits (hd (data ex_msg_bad)))
   \<and> (\<exists>st'. ProcessNewCommits ex_accept ex_msg_bad ex_state = Inr (False, st')
           \<and> block_index_map st' = block_index_map ex_state)"
proof -
  have h: "\<exists>d\<in>set (data ex_msg_bad). \<exists>c\<in>set (commits d). \<not> IsFinalizationTransaction c"
    by (simp add: ex_msg_bad_def ex_payment_def)
  have "list_all IsFinalizationTransaction (commits (hd (data ex_msg_bad)))"
    by (simp add: ex_msg_bad_def ex_vote_def)
  with h ProcessNewCommits_rejects_batch[OF h, of ex_accept ex_state] show ?thesis by blast
qed

text \<open>The two rejections that go through \<open>err\<close> report the block.\<close>

lemma ProcessNewCommits_bad_commit_reported:
  assumes "check_commits (data msg) = Some b"
  shows "\<exists>st'. ProcessNewCommits AcceptBlockHeader msg st = Inr (False, st')
           \<and> failed_block_out st' = map_option (\<lambda>_. b) (failed_block_out st)"
proof -
  let ?e = "err 100 ''bad-non-commit'' b st"
  have "ProcessNewCommits AcceptBlockHeader msg st = Inr (fst ?e, snd ?e)"
    using assms by (simp add: ProcessNewCommits_def)
  then show ?thesis by (simp add: err_result)
qed

lemma ProcessNewCommits_bad_index_reported:
  assumes "check_commits (data msg) = None" and "data msg = d # ds"
    and "AcceptBlockHeader (header d) (validation_state st) (block_index_map st) = (True, Some p, vs, m)"
    and "\<not> valid_tree p"
  shows "\<exists>st'. ProcessNewCommits AcceptBlockHeader msg st = Inr (False, st')
           \<and> failed_block_out st' = map_option (\<lambda>_. GetHash (header d)) (failed_block_out st)"
proof -
  let ?e = "err 100 ''bad-block-index'' (GetHash (header d)) (st\<lparr>validation_state := vs, block_index_map := m\<rparr>)"
  have "ProcessNewCommits AcceptBlockHeader msg st = Inr (fst ?e, snd ?e)"
    using assms by (simp add: ProcessNewCommits_def)
  then show ?thesis by (simp add: err_result)
qed

text \<open>Claim C6. The claim is that every rejection reports the offending block hash through
  \<open>failed_block_out\<close>. When \<open>AcceptBlockHeader\<close> refuses the first header of a message
  whose transactions are all finalization transactions, \<open>ProcessNewCommits\<close> returns
  false and \<open>failed_block_out\<close> holds what it held before.\<close>

theorem ProcessNewCommits_header_rejection_unreported:
  assumes "check_commits (data msg) = None" and "data msg = d # ds"
    and "AcceptBlockHeader (header d) (validation_state st) (block_index_map st) = (False, pindex, vs, m)"
  shows "\<exists>st'. ProcessNewCommits AcceptBlockHeader msg st = Inr (False, st')
           \<and> failed_block_out st' = failed_block_out st"
  using assms by (simp add: ProcessNewCommits_def)

theorem ProcessNewCommits_header_rejection_unreported_witness:
  "check_commits (data ex_msg_ok) = None
   \<and> ex_reject (ex_header 101) (validation_state ex_state) (block_index_map ex_state)
       = (False, None, validation_state ex_state, block_index_map ex_state)
   \<and> ProcessNewCommits ex_reject ex_msg_ok ex_state = Inr (False, ex_state)
   \<and> failed_block_out ex_state = Some 0
   \<and> GetHash (header (hd (data ex_msg_ok))) = 101"
  using ProcessNewCommits_header_rejection_unreported
    [of ex_msg_ok "\<lparr>header = ex_header 101, commits = [ex_vote]\<rparr>" "[]" ex_reject ex_state None
        "validation_state ex_state" "block_index_map ex_state"]
  by (simp add: ex_msg_ok_def ex_vote_def ex_reject_def ex_header_def ex_state_def
      ProcessNewCommits_def)

subsection \<open>Serving a response\<close>

text \<open>Claim C9. When the walk gets to an active-chain entry with no cached commits whose
  block data is missing or cannot be read from disk, \<open>ProcessGetCommits\<close> stops on the
  assertion: nothing is returned and nothing is pushed.\<close>

theorem ProcessGetCommits_missing_data_aborts:
  assumes "FindMostRecentStart fin m chain locator = Inr (Some p)"
    and "loop_position fin rd chain (FindStop m locator) n p = Some q"
    and "Next chain q = Some d" and "index_commits d = None"
    and "\<not> has_data d \<or> rd d = None"
  shows "ProcessGetCommits fin rd m chain locator
           = Some (Inl (AssertionFailed (if \<not> has_data d then ''No data on the main chain''
                                          else ''Cannot load block from the disk'')))"
  using assms(1) loop_position_abort[OF assms(2-5), of CommitsResponse_new]
  by (simp add: ProcessGetCommits_def)

theorem ProcessGetCommits_missing_data_aborts_witness:
  "FindMostRecentStart (\<lambda>h. h = 0) ex_map ex_chain_nodata \<lparr>start = [100], stop = 0\<rparr>
     = Inr (Some (ex_block 0))
   \<and> loop_position (\<lambda>h. h = 0) (\<lambda>_. None) ex_chain_nodata
       (FindStop ex_map \<lparr>start = [100], stop = 0\<rparr>) 1 (ex_block 0) = Some (ex_block 1)
   \<and> Next ex_chain_nodata (ex_block 1) = Some ex_nodata
   \<and> index_commits ex_nodata = None \<and> \<not> has_data ex_nodata
   \<and> ProcessGetCommits (\<lambda>h. h = 0) (\<lambda>_. None) ex_map ex_chain_nodata \<lparr>start = [100], stop = 0\<rparr>
       = Some (Inl (AssertionFailed ''No data on the main chain''))"
proof -
  have c0: "Contains ex_chain_nodata (ex_block 0)"
    by (simp add: Contains_def chain_at_def ex_chain_nodata_def)
  have n0: "Next ex_chain_nodata (ex_block 0) = Some (ex_block 1)"
    by (simp add: Next_def Contains_def chain_at_def ex_chain_nodata_def)
  have c1: "Contains ex_chain_nodata (ex_block 1)"
    by (simp add: Contains_def chain_at_def ex_chain_nodata_def)
  have n1: "Next ex_chain_nodata (ex_block 1) = Some ex_nodata"
    by (simp add: Next_def Contains_def chain_at_def ex_chain_nodata_def)
  have f: "FindMostRecentStart (\<lambda>h. h = 0) ex_map ex_chain_nodata \<lparr>start = [100], stop = 0\<rparr>
     = Inr (Some (ex_block 0))"
    using c0 by (simp add: FindMostRecentStart_def ex_map_def)
  have l: "loop_position (\<lambda>h. h = 0) (\<lambda>_. None) ex_chain_nodata
       (FindStop ex_map \<lparr>start = [100], stop = 0\<rparr>) 1 (ex_block 0) = Some (ex_block 1)"
    using n0 by (simp add: FindStop_def FindHeaderAndCommits_def)
  have d: "index_commits ex_nodata = None" "\<not> has_data ex_nodata"
    by simp_all
  from ProcessGetCommits_missing_data_aborts[OF f l n1 d(1)] d f l n1
  show ?thesis by simp
qed


text \<open>A walk over entries with cached commits, none of them a finalized checkpoint, and
  no stop takes them all.\<close>


lemma walk_list_cached:
  assumes "\<forall>q\<in>set qs. index_commits q \<noteq> None \<and> \<not> fin (nHeight q)"
  shows "\<exists>r'. walk_list fin rd None qs r = Inr r' \<and> status r' = TipReached
              \<and> length (data r') = length (data r) + length qs"
  using assms
proof (induction qs arbitrary: r)
  case Nil
  then show ?case by simp
next
  case (Cons q qs)
  then obtain cs where cs: "index_commits q = Some cs" by auto
  let ?r = "r\<lparr>data := data r @ [\<lparr>header = GetBlockHeader q, commits = cs\<rparr>]\<rparr>"
  from Cons.prems have "\<forall>q\<in>set qs. index_commits q \<noteq> None \<and> \<not> fin (nHeight q)" by simp
  from Cons.IH[OF this, of ?r] obtain r' where
    "walk_list fin rd None qs ?r = Inr r'" "status r' = TipReached"
    "length (data r') = length (data ?r) + length qs"
    by blast
  with cs Cons.prems show ?case by (simp add: FindHeaderAndCommits_def)
qed

lemma ex_chain_served:
  "\<exists>r. ProcessGetCommits (\<lambda>h. h = 0) rd ex_map (ex_chain (Suc n)) \<lparr>start = [100], stop = 0\<rparr>
          = Some (Inr (True, [r])) \<and> status r = TipReached \<and> length (data r) = n"
proof -
  let ?chain = "ex_chain (Suc n)"
  let ?fin = "\<lambda>h::int. h = 0"
  have "?chain = ex_block 0 # map ex_block [Suc 0..<Suc n]"
    by (simp add: ex_chain_def upt_conv_Cons del: upt_Suc)
  then have g: "?chain ! 0 = ex_block 0" by simp
  have c: "Contains ?chain (ex_block 0)"
    using g by (simp add: Contains_def chain_at_def)
  have f: "FindMostRecentStart ?fin ex_map ?chain \<lparr>start = [100], stop = 0\<rparr> = Inr (Some (ex_block 0))"
    using c by (simp add: FindMostRecentStart_def ex_map_def)
  have "\<forall>q\<in>set (drop (Suc 0) ?chain). index_commits q \<noteq> None \<and> \<not> ?fin (nHeight q)"
    by (auto simp add: ex_chain_def drop_map simp del: upt_Suc)
  from walk_list_cached[OF this, of rd CommitsResponse_new] obtain r where
    r: "walk_list ?fin rd None (drop (Suc 0) ?chain) CommitsResponse_new = Inr r"
      "status r = TipReached"
      "length (data r) = length (drop (Suc 0) ?chain)"
    by (auto simp: CommitsResponse_new_def)
  have "length (data r) = n" using r(3) by (simp add: ex_chain_def)
  moreover have "ProcessGetCommits ?fin rd ex_map ?chain \<lparr>start = [100], stop = 0\<rparr> = Some (Inr (True, [r]))"
    using f r(1) by (simp add: ProcessGetCommits_wf[OF chain_wf_ex_chain] FindStop_def)
  ultimately show ?thesis using r(2) by blast
qed

text \<open>Claim C4. The claim is that a response never holds more entries than the configured
  response-size cap and that a walk cut at the cap gives status \<open>LengthExceeded\<close>. The walk
  of \<open>ProcessGetCommits\<close> has no length check where it appends an entry: for a cap of one
  entry, the locator that starts at the genesis block of a chain of three blocks is
  answered with both blocks above it and status \<open>TipReached\<close>.\<close>

theorem ProcessGetCommits_overflow_undetected:
  "ProcessGetCommits (\<lambda>h. h = 0) (\<lambda>_. None) ex_map ex_chain3 \<lparr>start = [100], stop = 0\<rparr>
     = Some (Inr (True, [\<lparr>status = TipReached,
                           data = [\<lparr>header = ex_header 101, commits = []\<rparr>,
                                   \<lparr>header = ex_header 102, commits = []\<rparr>]\<rparr>]))"
proof -
  have c: "Contains ex_chain3 (ex_block 0)"
    by (simp add: Contains_def chain_at_def ex_chain3_def)
  have f: "FindMostRecentStart (\<lambda>h. h = 0) ex_map ex_chain3 \<lparr>start = [100], stop = 0\<rparr>
             = Inr (Some (ex_block 0))"
    using c by (simp add: FindMostRecentStart_def ex_map_def)
  show ?thesis
    unfolding ProcessGetCommits_wf[OF chain_wf_ex_chain3] f
    by (simp add: ex_chain3_def FindStop_def FindHeaderAndCommits_def
        CommitsResponse_new_def ex_header_def)
qed

text \<open>The same holds for every cap: on the chains \<open>ex_chain n\<close> the responses to that
  locator grow with \<open>n\<close> and none has status \<open>LengthExceeded\<close>.\<close>

theorem ProcessGetCommits_exceeds_every_cap:
  "\<not> (\<exists>cap. \<forall>n r. ProcessGetCommits (\<lambda>h. h = 0) (\<lambda>_. None) ex_map (ex_chain n)
                       \<lparr>start = [100], stop = 0\<rparr> = Some (Inr (True, [r]))
                    \<longrightarrow> length (data r) \<le> cap \<or> status r = LengthExceeded)"
proof
  assume "\<exists>cap. \<forall>n r. ProcessGetCommits (\<lambda>h. h = 0) (\<lambda>_. None) ex_map (ex_chain n)
                       \<lparr>start = [100], stop = 0\<rparr> = Some (Inr (True, [r]))
                    \<longrightarrow> length (data r) \<le> cap \<or> status r = LengthExceeded"
  then obtain cap where cap: "\<And>n r. ProcessGetCommits (\<lambda>h. h = 0) (\<lambda>_. None) ex_map (ex_chain n)
                       \<lparr>start = [100], stop = 0\<rparr> = Some (Inr (True, [r]))
                    \<Longrightarrow> length (data r) \<le> cap \<or> status r = LengthExceeded" by blast
  from ex_chain_served[of "\<lambda>_. None" "Suc cap"] obtain r where
    "ProcessGetCommits (\<lambda>h. h = 0) (\<lambda>_. None) ex_map (ex_chain (Suc (Suc cap)))
       \<lparr>start = [100], stop = 0\<rparr> = Some (Inr (True, [r]))"
    "status r = TipReached" "length (data r) = Suc cap"
    by blast
  with cap[of "Suc (Suc cap)" r] show False by simp
qed


lemma served_response_tip_reached:
  assumes "chain_wf chain"
    and "ProcessGetCommits fin rd m chain locator = Some (Inr (ok, msgs))" and "r \<in> set msgs"
    and "status r = TipReached"
  shows "(data r = [] \<and> FindMostRecentStart fin m chain locator = Inr (Tip chain))
       \<or> (data r \<noteq> [] \<and> Some (header (last (data r))) = map_option GetBlockHeader (Tip chain))"
proof -
  from assms(1-3) obtain p where f: "FindMostRecentStart fin m chain locator = Inr (Some p)"
    and p: "Contains chain p"
    and w: "walk_list fin rd (FindStop m locator) (drop (Suc (nat (nHeight p))) chain)
              CommitsResponse_new = Inr r"
    by (rule ProcessGetCommits_served)
  let ?i = "nat (nHeight p)"
  let ?qs = "drop (Suc ?i) chain"
  from Contains_wfD[OF p] have i: "?i < length chain" "chain ! ?i = p" by simp_all
  then have ne: "chain \<noteq> []" by auto
  from walk_list_tip[OF w assms(4)] have hs: "map header (data r) = map GetBlockHeader ?qs"
    by (simp add: CommitsResponse_new_def)
  show ?thesis
  proof (cases "?qs = []")
    case True
    with hs have "data r = []" by simp
    moreover from True i have "length chain - 1 = ?i" by simp
    with i(2) last_conv_nth[OF ne] have "last chain = p" by metis
    ultimately show ?thesis using f ne by (simp add: Tip_def)
  next
    case False
    with hs have d: "data r \<noteq> []" by auto
    have "header (last (data r)) = last (map header (data r))" using d by (simp add: last_map)
    also have "\<dots> = GetBlockHeader (last ?qs)" using hs False by (simp add: last_map)
    also have "last ?qs = last chain" using False by simp
    finally show ?thesis using d ne by (simp add: Tip_def)
  qed
qed

text \<open>Claim C7, as amended. On a well-formed active chain \<open>ProcessGetCommits\<close> returns, and
  a response with status \<open>TipReached\<close> either is empty, the start point being the tip of
  the active chain already, or ends with the header of the tip.\<close>

theorem ProcessGetCommits_tip_reached:
  assumes "chain_wf chain"
  shows "ProcessGetCommits fin rd m chain locator \<noteq> None
       \<and> (\<forall>ok msgs r. ProcessGetCommits fin rd m chain locator = Some (Inr (ok, msgs))
                       \<and> r \<in> set msgs \<and> status r = TipReached
             \<longrightarrow> (data r = [] \<and> FindMostRecentStart fin m chain locator = Inr (Tip chain))
               \<or> (data r \<noteq> []
                  \<and> Some (header (last (data r))) = map_option GetBlockHeader (Tip chain)))"
  using served_response_tip_reached[OF assms] ProcessGetCommits_terminates[OF assms] by blast

text \<open>Claim C7, as stated, fails: a locator that starts at the tip is answered with status
  \<open>TipReached\<close> and no entry at all.\<close>

theorem ProcessGetCommits_tip_reached_empty:
  "ProcessGetCommits (\<lambda>h. h = 2) (\<lambda>_. None) ex_map ex_chain3 \<lparr>start = [102], stop = 0\<rparr>
     = Some (Inr (True, [\<lparr>status = TipReached, data = []\<rparr>]))"
proof -
  have wf: "chain_wf ex_chain3"
    by (simp add: chain_wf_def ex_chain3_def upt_rec)
  have c: "Contains ex_chain3 (ex_block 2)"
    by (simp add: Contains_def chain_at_def ex_chain3_def)
  have f: "FindMostRecentStart (\<lambda>h. h = 2) ex_map ex_chain3 \<lparr>start = [102], stop = 0\<rparr>
             = Inr (Some (ex_block 2))"
    using c by (simp add: FindMostRecentStart_def ex_map_def)
  show ?thesis
    unfolding ProcessGetCommits_wf[OF wf] f
    by (simp add: ex_chain3_def CommitsResponse_new_def)
qed

theorem ProcessGetCommits_tip_reached_witness:
  "chain_wf ex_chain3
   \<and> ProcessGetCommits (\<lambda>h. h = 0) (\<lambda>_. None) ex_map ex_chain3 \<lparr>start = [100], stop = 0\<rparr>
       = Some (Inr (True, [\<lparr>status = TipReached,
                             data = [\<lparr>header = ex_header 101, commits = []\<rparr>,
                                     \<lparr>header = ex_header 102, commits = []\<rparr>]\<rparr>]))
   \<and> Some (ex_header 102) = map_option GetBlockHeader (Tip ex_chain3)"
proof -
  let ?r = "\<lparr>status = TipReached, data = [\<lparr>header = ex_header 101, commits = []\<rparr>,
                                     \<lparr>header = ex_header 102, commits = []\<rparr>]\<rparr>"
  have wf: "chain_wf ex_chain3"
    by (simp add: chain_wf_def ex_chain3_def upt_rec)
  have c: "Contains ex_chain3 (ex_block 0)"
    by (simp add: Contains_def chain_at_def ex_chain3_def)
  have f: "FindMostRecentStart (\<lambda>h. h = 0) ex_map ex_chain3 \<lparr>start = [100], stop = 0\<rparr>
             = Inr (Some (ex_block 0))"
    using c by (simp add: FindMostRecentStart_def ex_map_def)
  have s: "ProcessGetCommits (\<lambda>h. h = 0) (\<lambda>_. None) ex_map ex_chain3 \<lparr>start = [100], stop = 0\<rparr>
       = Some (Inr (True, [?r]))"
    unfolding ProcessGetCommits_wf[OF wf] f
    by (simp add: ex_chain3_def FindStop_def FindHeaderAndCommits_def
        CommitsResponse_new_def ex_header_def)
  from ProcessGetCommits_tip_reached[OF wf, of "\<lambda>h. h = 0" "\<lambda>_. None" ex_map "\<lparr>start = [100], stop = 0\<rparr>"]
    wf s show ?thesis by auto
qed



section \<open>Properties of the repository and the processor\<close>

subsection \<open>The repository\<close>

lemma Find_Confirm:
  "Find (Confirm repo block s) b =
     (if nHeight b = 0 then Some (genesis_state repo)
      else if b = block then Some s else Find repo b)"
  by (simp add: Find_def Confirm_def)

lemma Find_TrimUntilHeight:
  "Find (TrimUntilHeight chain repo n) b =
     (if nHeight b < n \<and> nHeight b \<noteq> 0 \<and> chain_at chain (n - 1) \<noteq> Some b
      then None else Find repo b)"
  by (simp add: Find_def TrimUntilHeight_def)

subsection \<open>The tests of the processor\<close>

text \<open>The model, run with the example engine, gives every result the test \<open>trimming\<close>
  checks.\<close>

lemma trimming_test:
  "fst (AddBlocks (ex_engine 5) 0 5 (Reset 5))"
  "map (\<lambda>h. Find ex_repo5 (ex_block h) \<noteq> None) [0, 1, 2, 3, 4] = [True, True, True, True, True]"
  "list_all (\<lambda>(h1, h2). (Find ex_repo5 (ex_block h1) = Find ex_repo5 (ex_block h2)) = (h1 = h2))
     (List.product [0, 1, 2, 3, 4] [0, 1, 2, 3, 4])"
  "fst (AddBlocks (ex_engine 5) 5 1 ex_repo5)"
  "map (\<lambda>h. Find (snd (AddBlocks (ex_engine 5) 5 1 ex_repo5)) (ex_block h) \<noteq> None) [0, 1, 2, 3, 4, 5]
     = [True, False, False, False, True, True]"
  "fst (AddBlocks (ex_engine 5) 0 10 (Reset 5))"
  "map (\<lambda>h. Find (snd (AddBlocks (ex_engine 5) 0 10 (Reset 5))) (ex_block h) \<noteq> None) [4, 5, 9]
     = [True, True, True]"
  "fst (AddBlocks (ex_engine 5) 0 15 (Reset 5))"
  "map (\<lambda>h. Find (snd (AddBlocks (ex_engine 5) 0 15 (Reset 5))) (ex_block h) \<noteq> None) [4, 5, 9]
     = [True, True, True]"
  "fst (AddBlocks (ex_engine 5) 0 16 (Reset 5))"
  "map (\<lambda>h. Find (snd (AddBlocks (ex_engine 5) 0 16 (Reset 5))) (ex_block h) \<noteq> None) [4, 8, 9, 10]
     = [False, False, True, True]"
  by code_simp+

text \<open>It gives every result the test \<open>states_workflow\<close> checks as well.\<close>

lemma states_workflow_test:
  "let eng = ex_engine 5; b = ex_block 5; b1 = ex_block 6; b2 = ex_block 7;
       r1 = StateProcessor_ProcessNewCommits eng ex_repo5 b [];
       r2 = ProcessNewTipCandidate eng (snd r1) b ex_CBlock;
       r3 = ProcessNewTip (ex_chain 6) eng (snd r2) b ex_CBlock;
       r4 = StateProcessor_ProcessNewCommits eng (snd r3) b2 [];
       r5 = ProcessNewTipCandidate eng (snd r4) b2 ex_CBlock;
       r6 = ProcessNewTip (ex_chain 8) eng (snd r5) b2 ex_CBlock;
       r7 = StateProcessor_ProcessNewCommits eng (snd r6) b1 [];
       r8 = ProcessNewTipCandidate eng (snd r7) b2 ex_CBlock;
       r9 = ProcessNewTip (ex_chain 8) eng (snd r8) b2 ex_CBlock;
       r10 = StateProcessor_ProcessNewCommits eng (snd r9) b2 [];
       r11 = ProcessNewTip (ex_chain 8) eng (snd r10) b2 ex_CBlock;
       r12 = AddBlocks eng 8 1 (snd r11)
   in fst r1 \<and> GetInitStatus (snd r1) b = FROM_COMMITS \<and> Find (snd r1) (ex_block 1) \<noteq> None
    \<and> fst r2 \<and> GetInitStatus (snd r2) b = COMPLETED \<and> Find (snd r2) (ex_block 1) \<noteq> None
    \<and> fst r3 \<and> GetInitStatus (snd r3) b = COMPLETED \<and> Find (snd r3) (ex_block 1) = None
    \<and> \<not> fst r4 \<and> \<not> fst r5 \<and> \<not> fst r6
    \<and> fst r7 \<and> \<not> fst r8 \<and> \<not> fst r9
    \<and> fst r10 \<and> fst r11 \<and> fst r12"
  by code_simp

subsection \<open>The parent precondition\<close>

text \<open>Claim C1, as amended. For a block that has no stored state of its own and whose
  parent has no state that is \<open>Completed\<close>, \<open>ProcessNewTipCandidate\<close> and
  \<open>ProcessNewTip\<close> return false and leave the repository unchanged.\<close>

theorem ProcessNewTip_needs_completed_parent:
  assumes "Find repo block = None"
    and "\<forall>ps. parent_state repo block = Some ps \<longrightarrow> init_status ps \<noteq> COMPLETED"
  shows "ProcessNewTipCandidate eng repo block blk = (False, repo)
       \<and> ProcessNewTip chain eng repo block blk = (False, repo)"
proof -
  have "ProcessNewTipWorker eng repo block blk = (False, repo)"
    using assms by (simp add: ProcessNewTipWorker_def GetInitStatus_def split: option.splits)
  then show ?thesis by (simp add: ProcessNewTipCandidate_def ProcessNewTip_def)
qed

theorem ProcessNewTip_needs_completed_parent_witness:
  "Find ex_repo_b1 (ex_block 7) = None
   \<and> map_option init_status (parent_state ex_repo_b1 (ex_block 7)) = Some FROM_COMMITS
   \<and> ProcessNewTipCandidate (ex_engine 5) ex_repo_b1 (ex_block 7) ex_CBlock = (False, ex_repo_b1)
   \<and> ProcessNewTip (ex_chain 8) (ex_engine 5) ex_repo_b1 (ex_block 7) ex_CBlock = (False, ex_repo_b1)"
proof -
  have a: "Find ex_repo_b1 (ex_block 7) = None" by code_simp
  have b: "map_option init_status (parent_state ex_repo_b1 (ex_block 7)) = Some FROM_COMMITS"
    by code_simp
  then have "\<forall>ps. parent_state ex_repo_b1 (ex_block 7) = Some ps \<longrightarrow> init_status ps \<noteq> COMPLETED"
    by auto
  from ProcessNewTip_needs_completed_parent[OF a this] a b show ?thesis by simp
qed

text \<open>Claim C1, as stated, fails, as in the snapshot-sync step of the test
  \<open>states_workflow\<close>: blocks 6 and 7 both hold a state from commits, and \<open>ProcessNewTip\<close>
  succeeds on block 7 although the state of its parent, block 6, is \<open>FromCommits\<close>; it
  changes the repository, block 7 being \<open>Completed\<close> afterwards.\<close>

theorem ProcessNewTip_from_commits_parent:
  "pprev (ex_block 7) = Some (ex_block 6)
   \<and> GetInitStatus ex_repo_b2 (ex_block 6) = FROM_COMMITS
   \<and> GetInitStatus ex_repo_b2 (ex_block 7) = FROM_COMMITS
   \<and> fst (ProcessNewTip (ex_chain 8) (ex_engine 5) ex_repo_b2 (ex_block 7) ex_CBlock)
   \<and> GetInitStatus (snd (ProcessNewTip (ex_chain 8) (ex_engine 5) ex_repo_b2 (ex_block 7) ex_CBlock))
        (ex_block 7) = COMPLETED"
  by code_simp

subsection \<open>Trimming\<close>

text \<open>Claim C2. When \<open>ProcessNewTip\<close> on a block determines the new finalized checkpoint
  at height \<open>k * E - 1\<close>, \<open>E\<close> the epoch length, then afterwards no block of a height
  below \<open>k * E\<close> has a state, except genesis and the checkpoint block, and every other
  block has the state it had. With \<open>E = 5\<close> and six blocks added, heights 1 to 3 are
  absent and heights 0, 4 and 5 present: this is the instance that follows the theorem.\<close>

theorem ProcessNewTip_trims_below_boundary:
  assumes "ProcessNewTipWorker eng repo block blk = (True, repo1)"
    and "FinalizationHappened repo1 block = Some (k * epoch_length repo - 1)"
  shows "\<exists>repo'. ProcessNewTip chain eng repo block blk = (True, repo')
       \<and> (\<forall>b. nHeight b < k * epoch_length repo \<and> nHeight b \<noteq> 0
               \<and> chain_at chain (k * epoch_length repo - 1) \<noteq> Some b
             \<longrightarrow> Find repo' b = None)
       \<and> (\<forall>b. nHeight b \<ge> k * epoch_length repo \<or> nHeight b = 0
               \<or> chain_at chain (k * epoch_length repo - 1) = Some b
             \<longrightarrow> Find repo' b = Find repo1 b)"
proof -
  let ?c = "k * epoch_length repo - 1"
  have "ProcessNewTip chain eng repo block blk = (True, TrimUntilHeight chain repo1 (?c + 1))"
    using assms by (simp add: ProcessNewTip_def)
  moreover have "\<forall>b. nHeight b < k * epoch_length repo \<and> nHeight b \<noteq> 0
               \<and> chain_at chain ?c \<noteq> Some b
             \<longrightarrow> Find (TrimUntilHeight chain repo1 (?c + 1)) b = None"
    by (simp add: Find_TrimUntilHeight)
  moreover have "\<forall>b. nHeight b \<ge> k * epoch_length repo \<or> nHeight b = 0
               \<or> chain_at chain ?c = Some b
             \<longrightarrow> Find (TrimUntilHeight chain repo1 (?c + 1)) b = Find repo1 b"
    by (auto simp add: Find_TrimUntilHeight)
  ultimately show ?thesis by blast
qed

theorem ProcessNewTip_trims_below_boundary_witness:
  "ProcessNewTipWorker (ex_engine 5) ex_repo5 (ex_block 5) ex_CBlock
     = (True, snd (ProcessNewTipWorker (ex_engine 5) ex_repo5 (ex_block 5) ex_CBlock))
   \<and> FinalizationHappened (snd (ProcessNewTipWorker (ex_engine 5) ex_repo5 (ex_block 5) ex_CBlock))
        (ex_block 5) = Some (1 * epoch_length ex_repo5 - 1)
   \<and> epoch_length ex_repo5 = 5
   \<and> (\<exists>repo'. ProcessNewTip (ex_chain 6) (ex_engine 5) ex_repo5 (ex_block 5) ex_CBlock = (True, repo')
        \<and> Find repo' (ex_block 1) = None \<and> Find repo' (ex_block 2) = None
        \<and> Find repo' (ex_block 3) = None
        \<and> Find repo' (ex_block 0) \<noteq> None \<and> Find repo' (ex_block 4) \<noteq> None
        \<and> Find repo' (ex_block 5) \<noteq> None)"
proof -
  let ?r1 = "snd (ProcessNewTipWorker (ex_engine 5) ex_repo5 (ex_block 5) ex_CBlock)"
  have "fst (ProcessNewTipWorker (ex_engine 5) ex_repo5 (ex_block 5) ex_CBlock)" by code_simp
  then have w: "ProcessNewTipWorker (ex_engine 5) ex_repo5 (ex_block 5) ex_CBlock = (True, ?r1)"
    by (simp add: prod_eq_iff)
  have E: "epoch_length ex_repo5 = 5" by code_simp
  have "FinalizationHappened ?r1 (ex_block 5) = Some 4" by code_simp
  then have f: "FinalizationHappened ?r1 (ex_block 5) = Some (1 * epoch_length ex_repo5 - 1)"
    by (simp add: E)
  have c: "chain_at (ex_chain 6) 4 = Some (ex_block 4)"
    by (simp add: chain_at_def ex_chain_def del: upt_Suc)
  have p: "Find ?r1 (ex_block 0) \<noteq> None" "Find ?r1 (ex_block 4) \<noteq> None"
    "Find ?r1 (ex_block 5) \<noteq> None"
    by code_simp+
  from ProcessNewTip_trims_below_boundary[OF w f, of "ex_chain 6"] obtain repo' where
    r: "ProcessNewTip (ex_chain 6) (ex_engine 5) ex_repo5 (ex_block 5) ex_CBlock = (True, repo')"
    and absent: "\<And>b. nHeight b < 5 \<Longrightarrow> nHeight b \<noteq> 0 \<Longrightarrow> chain_at (ex_chain 6) 4 \<noteq> Some b
          \<Longrightarrow> Find repo' b = None"
    and kept: "\<And>b. nHeight b \<ge> 5 \<or> nHeight b = 0 \<or> chain_at (ex_chain 6) 4 = Some b
          \<Longrightarrow> Find repo' b = Find ?r1 b"
    unfolding E by auto
  have "Find repo' (ex_block 1) = None" "Find repo' (ex_block 2) = None"
    "Find repo' (ex_block 3) = None"
    by (rule absent; simp add: c)+
  moreover have "Find repo' (ex_block 0) = Find ?r1 (ex_block 0)"
    "Find repo' (ex_block 4) = Find ?r1 (ex_block 4)"
    "Find repo' (ex_block 5) = Find ?r1 (ex_block 5)"
    by (rule kept; simp add: c)+
  ultimately show ?thesis using w f E r p by simp
qed

subsection \<open>The status of a block over calls\<close>

lemma ProcessNewCommits_status:
  "status_rank (GetInitStatus repo b)
     \<le> status_rank (GetInitStatus (snd (StateProcessor_ProcessNewCommits eng repo block txs)) b)"
  by (cases "GetInitStatus repo block")
     (auto simp: StateProcessor_ProcessNewCommits_def GetInitStatus_def Find_def Confirm_def
           split: option.splits)

lemma ProcessNewTipWorker_status:
  "status_rank (GetInitStatus repo b)
     \<le> status_rank (GetInitStatus (snd (ProcessNewTipWorker eng repo block blk)) b)"
  by (cases "GetInitStatus repo block")
     (auto simp: ProcessNewTipWorker_def GetInitStatus_def Find_def Confirm_def
           split: option.splits)

lemma ProcessNewTip_status:
  "status_rank (GetInitStatus repo b)
     \<le> status_rank (GetInitStatus (snd (ProcessNewTip chain eng repo block blk)) b)
   \<or> Find (snd (ProcessNewTip chain eng repo block blk)) b = None"
proof (cases "ProcessNewTipWorker eng repo block blk")
  case (Pair ok repo1)
  have w: "status_rank (GetInitStatus repo b) \<le> status_rank (GetInitStatus repo1 b)"
    using ProcessNewTipWorker_status[of repo b eng block blk] Pair by simp
  show ?thesis
  proof (cases "ok \<and> FinalizationHappened repo1 block \<noteq> None")
    case False
    then have "snd (ProcessNewTip chain eng repo block blk) = repo1"
      using Pair by (cases ok) (auto simp: ProcessNewTip_def)
    with w show ?thesis by simp
  next
    case True
    then obtain c where "FinalizationHappened repo1 block = Some c" by auto
    with True Pair have
      "snd (ProcessNewTip chain eng repo block blk) = TrimUntilHeight chain repo1 (c + 1)"
      by (simp add: ProcessNewTip_def)
    with w show ?thesis by (auto simp: GetInitStatus_def Find_TrimUntilHeight)
  qed
qed

lemma apply_call_status:
  "status_rank (GetInitStatus repo b) \<le> status_rank (GetInitStatus (snd (apply_call eng repo c)) b)
   \<or> (is_NewTip c \<and> Find (snd (apply_call eng repo c)) b = None)"
proof (cases c)
  case (NewCommits block txs)
  then show ?thesis by (simp add: ProcessNewCommits_status)
next
  case (NewTipCandidate block blk)
  then show ?thesis by (simp add: ProcessNewTipCandidate_def ProcessNewTipWorker_status)
next
  case (NewTip chain block blk)
  then show ?thesis using ProcessNewTip_status[of repo b chain eng block blk] by simp
qed

lemma run_calls_status:
  "list_all (\<lambda>c. \<not> is_NewTip c) cs \<Longrightarrow>
   status_rank (GetInitStatus repo b) \<le> status_rank (GetInitStatus (run_calls eng repo cs) b)"
proof (induction cs arbitrary: repo)
  case Nil
  then show ?case by simp
next
  case (Cons c cs)
  then have "\<not> is_NewTip c" and "list_all (\<lambda>c. \<not> is_NewTip c) cs" by simp_all
  from apply_call_status[of repo b eng c] this(1)
  have "status_rank (GetInitStatus repo b) \<le> status_rank (GetInitStatus (snd (apply_call eng repo c)) b)"
    by simp
  also have "\<dots> \<le> status_rank (GetInitStatus (run_calls eng (snd (apply_call eng repo c)) cs) b)"
    by (rule Cons.IH) fact
  finally show ?case by simp
qed

text \<open>Claim C8, as amended. Over any sequence of \<open>ProcessNewCommits\<close> and
  \<open>ProcessNewTipCandidate\<close> calls the status of every block is non-decreasing in the order
  \<open>Absent\<close>, \<open>FromCommits\<close>, \<open>Completed\<close>; a single call of any of the three entry points
  does not lower the status of a block either, unless it is a \<open>ProcessNewTip\<close> that trims
  the block's entry.\<close>

theorem init_status_monotone_unless_trimmed:
  "(list_all (\<lambda>c. \<not> is_NewTip c) cs \<longrightarrow>
      status_rank (GetInitStatus repo b) \<le> status_rank (GetInitStatus (run_calls eng repo cs) b))
   \<and> (status_rank (GetInitStatus repo b) \<le> status_rank (GetInitStatus (snd (apply_call eng repo c)) b)
      \<or> (is_NewTip c \<and> Find (snd (apply_call eng repo c)) b = None))"
  using run_calls_status[of cs repo b eng] apply_call_status[of repo b eng c] by blast

theorem init_status_monotone_unless_trimmed_witness:
  "list_all (\<lambda>c. \<not> is_NewTip c)
     [NewCommits (ex_block 5) [], NewTipCandidate (ex_block 5) ex_CBlock]
   \<and> GetInitStatus ex_repo5 (ex_block 5) = ABSENT
   \<and> GetInitStatus (run_calls (ex_engine 5) ex_repo5
        [NewCommits (ex_block 5) [], NewTipCandidate (ex_block 5) ex_CBlock]) (ex_block 5) = COMPLETED
   \<and> status_rank ABSENT \<le> status_rank COMPLETED
   \<and> is_NewTip (NewTip (ex_chain 6) (ex_block 5) ex_CBlock)
   \<and> Find (snd (apply_call (ex_engine 5) ex_repo5 (NewTip (ex_chain 6) (ex_block 5) ex_CBlock)))
        (ex_block 1) = None"
proof -
  let ?cs = "[NewCommits (ex_block 5) [], NewTipCandidate (ex_block 5) ex_CBlock]"
  have a: "GetInitStatus ex_repo5 (ex_block 5) = ABSENT" by code_simp
  have b: "GetInitStatus (run_calls (ex_engine 5) ex_repo5 ?cs) (ex_block 5) = COMPLETED"
    by code_simp
  have c: "Find (snd (apply_call (ex_engine 5) ex_repo5 (NewTip (ex_chain 6) (ex_block 5) ex_CBlock)))
        (ex_block 1) = None" by code_simp
  from init_status_monotone_unless_trimmed
    [of ?cs ex_repo5 "ex_block 5" "ex_engine 5" "NewTip (ex_chain 6) (ex_block 5) ex_CBlock"]
    a b c show ?thesis by simp
qed

text \<open>Claim C8, as stated, fails, as in the test \<open>trimming\<close>: block 1 is \<open>Completed\<close>
  after five blocks and has no state once block 5 has been processed; its commits can then
  be processed anew, which leaves it at \<open>FromCommits\<close>.\<close>

theorem init_status_regresses_by_trimming:
  "GetInitStatus ex_repo5 (ex_block 1) = COMPLETED
   \<and> fst (ProcessNewTip (ex_chain 6) (ex_engine 5) ex_repo5 (ex_block 5) ex_CBlock)
   \<and> GetInitStatus (snd (ProcessNewTip (ex_chain 6) (ex_engine 5) ex_repo5 (ex_block 5) ex_CBlock))
        (ex_block 1) = ABSENT
   \<and> GetInitStatus
        (run_calls (ex_engine 5) ex_repo5
           [NewTip (ex_chain 6) (ex_block 5) ex_CBlock, NewCommits (ex_block 1) []])
        (ex_block 1) = FROM_COMMITS"
  by code_simp

end
